theory Spec2Isabelle
  imports Main
begin

section \<open>Label Studio synchronisation: data model\<close>

text \<open>
  The development follows \<^verbatim>\<open>pixeltable/datatransfer/label_studio.py\<close>.
  Every \<^verbatim>\<open>raise\<close> of the source is a value of \<open>error\<close>. The four
  \<^verbatim>\<open>excs.Error\<close> sites are kept apart by constructor (the source distinguishes them by
  message only); the remaining constructors are the Python runtime errors that the
  modelled code can reach.
\<close>

datatype error =
    RootNotView                 \<comment> \<open>\<^verbatim>\<open>Root of Label Studio config must be a `View`\<close>\<close>
  | UnsupportedDataType string  \<comment> \<open>\<^verbatim>\<open>Unsupported Label Studio data type: `tag`\<close>\<close>
  | MediaNotStored string       \<comment> \<open>\<^verbatim>\<open>Media column ... is not a stored column: `col`\<close>\<close>
  | LocalMediaMultiField        \<comment> \<open>\<^verbatim>\<open>Cannot use locally stored media files ...\<close>\<close>
  | AssertionError
  | IndexError
  | KeyError
  | TypeError
  | StopIteration

datatype column_type = StringType | ImageType | VideoType | AudioType

text \<open>
  An \<^verbatim>\<open>ElementTree.Element\<close>: its tag, its attribute dictionary and its direct
  children, in document order.
\<close>

datatype element =
  Element (tag: string) (attrib: "string \<rightharpoonup> string") (children: "element list")

section \<open>Config parser\<close>

text \<open>
  \<^verbatim>\<open>str.lower()\<close> on the ASCII letters; every other character is left as it is.
\<close>

definition lower_char :: "char \<Rightarrow> char" where
  "lower_char c =
     (case map_of (zip ''ABCDEFGHIJKLMNOPQRSTUVWXYZ'' ''abcdefghijklmnopqrstuvwxyz'') c of
        Some d \<Rightarrow> d
      | None \<Rightarrow> c)"

definition lower :: "string \<Rightarrow> string" where
  "lower s = map lower_char s"

definition LS_TAG_MAP :: "string \<rightharpoonup> column_type" where
  "LS_TAG_MAP =
     [''text'' \<mapsto> StringType, ''image'' \<mapsto> ImageType,
      ''video'' \<mapsto> VideoType, ''audio'' \<mapsto> AudioType]"

text \<open>
  The generator \<^verbatim>\<open>_extract_vars_from_project_config\<close>, run to exhaustion:
  the pairs it yields, or the error raised on the way. \<^verbatim>\<open>element.attrib['value'][0]\<close>
  on an empty string is Python's \<^verbatim>\<open>IndexError\<close>.
\<close>

fun extract_vars :: "element list \<Rightarrow> error + (string \<times> column_type) list" where
  "extract_vars [] = Inr []"
| "extract_vars (e # es) =
     (case attrib e ''value'' of
        None \<Rightarrow> extract_vars es
      | Some v \<Rightarrow>
          (case v of
             [] \<Rightarrow> Inl IndexError
           | c # name \<Rightarrow>
               if c = CHR ''$'' then
                 (case LS_TAG_MAP (lower (tag e)) of
                    None \<Rightarrow> Inl (UnsupportedDataType (tag e))
                  | Some element_type \<Rightarrow>
                      (case extract_vars es of
                         Inl err \<Rightarrow> Inl err
                       | Inr ps \<Rightarrow> Inr ((name, element_type) # ps)))
               else extract_vars es))"

definition extract_vars_from_project_config ::
  "element \<Rightarrow> error + (string \<times> column_type) list" where
  "extract_vars_from_project_config root = extract_vars (children root)"

text \<open>\<^verbatim>\<open>dict(pairs)\<close>: the pairs are stored in order, a later key overwriting.\<close>

definition dict :: "('k \<times> 'v) list \<Rightarrow> ('k \<rightharpoonup> 'v)" where
  "dict ps = foldl (\<lambda>m (k, v). m(k \<mapsto> v)) Map.empty ps"

definition parse_project_config :: "element \<Rightarrow> error + (string \<rightharpoonup> column_type)" where
  "parse_project_config root =
     (if lower (tag root) \<noteq> ''view'' then Inl RootNotView
      else if tag root \<noteq> ''View'' then Inl AssertionError
      else (case extract_vars_from_project_config root of
              Inl err \<Rightarrow> Inl err
            | Inr ps \<Rightarrow> Inr (dict ps)))"

section \<open>Task enumerator\<close>

text \<open>
  A row coordinate is a tuple of integers; Label Studio returns it as a JSON array.
  Of a remote task the synchronisation reads \<^verbatim>\<open>meta.rowid\<close> and the annotation list.
  The \<^verbatim>\<open>meta\<close> dictionary of a task has no \<^verbatim>\<open>rowid\<close> key, or a null under it, or a
  row coordinate. An annotation is an opaque JSON value, kept as its text.
\<close>

type_synonym rowid = "int list"

type_synonym annotation = string

datatype rowid_entry = NoRowid | NullRowid | Rowid rowid

record task =
  task_id :: nat
  meta_rowid :: rowid_entry
  annotations :: "annotation list"

text \<open>
  \<^verbatim>\<open>task['meta'].get('rowid')\<close>: Python's \<^verbatim>\<open>None\<close> for a missing key and for a
  null alike.
\<close>

definition get_rowid :: "task \<Rightarrow> rowid option" where
  "get_rowid t = (case meta_rowid t of NoRowid \<Rightarrow> None | NullRowid \<Rightarrow> None | Rowid r \<Rightarrow> Some r)"

text \<open>
  \<^verbatim>\<open>task['meta']['rowid']\<close>: a \<^verbatim>\<open>KeyError\<close> when the key is missing, \<^verbatim>\<open>None\<close> for a
  null.
\<close>

definition index_rowid :: "task \<Rightarrow> error + rowid option" where
  "index_rowid t =
     (case meta_rowid t of
        NoRowid \<Rightarrow> Inl KeyError
      | NullRowid \<Rightarrow> Inr None
      | Rowid r \<Rightarrow> Inr (Some r))"

record page_result =
  end_pagination :: bool
  tasks :: "task list"

definition PAGE_SIZE :: nat where
  "PAGE_SIZE = 100"

datatype log_msg =
    SkippedUnrecognized nat     \<comment> \<open>\<^verbatim>\<open>_logger.warning('Skipped n unrecognized task(s) ...')\<close>\<close>
  | UpdatingTable string string nat  \<comment> \<open>\<^verbatim>\<open>_logger.info('Updating table ...')\<close>\<close>

text \<open>
  The \<^verbatim>\<open>for task in result['tasks']\<close> loop of one page: the tasks yielded, in order,
  and the running count of tasks without a rowid.
\<close>

fun scan_page :: "task list \<Rightarrow> nat \<Rightarrow> task list \<times> nat" where
  "scan_page [] unknown_task_count = ([], unknown_task_count)"
| "scan_page (t # ts) unknown_task_count =
     (case get_rowid t of
        None \<Rightarrow> scan_page ts (unknown_task_count + 1)
      | Some r \<Rightarrow>
          (case scan_page ts unknown_task_count of (ys, c) \<Rightarrow> (t # ys, c)))"

text \<open>
  The \<^verbatim>\<open>while True\<close> loop. The service is \<^verbatim>\<open>get_paginated_tasks(page, page_size)\<close>;
  a service that never signals the end of pagination keeps the loop running, which
  is the value \<open>None\<close>.
\<close>

partial_function (option) get_all_tasks_loop ::
  "(nat \<Rightarrow> nat \<Rightarrow> page_result) \<Rightarrow> nat \<Rightarrow> nat \<Rightarrow> task list \<Rightarrow> (task list \<times> nat) option"
where
  "get_all_tasks_loop get_paginated_tasks page unknown_task_count yielded =
     (if end_pagination (get_paginated_tasks page PAGE_SIZE)
      then Some (yielded, unknown_task_count)
      else (case scan_page (tasks (get_paginated_tasks page PAGE_SIZE)) unknown_task_count of
              (ys, c) \<Rightarrow> get_all_tasks_loop get_paginated_tasks (page + 1) c (yielded @ ys)))"

text \<open>
  \<^verbatim>\<open>list(self._get_all_tasks())\<close>: the tasks yielded and the log lines written once
  the generator is exhausted.
\<close>

definition get_all_tasks ::
  "(nat \<Rightarrow> nat \<Rightarrow> page_result) \<Rightarrow> (task list \<times> log_msg list) option" where
  "get_all_tasks get_paginated_tasks =
     (case get_all_tasks_loop get_paginated_tasks 1 0 [] of
        None \<Rightarrow> None
      | Some (yielded, unknown_task_count) \<Rightarrow>
          Some (yielded,
                if unknown_task_count > 0 then [SkippedUnrecognized unknown_task_count] else []))"

section \<open>The table adapter\<close>

text \<open>
  What the synchronisation reads from a table: its name, for each column whether its
  type is a media type and whether the column is stored, and the rows. A row has its
  rowid and a value for every select expression; the push columns are text or media
  columns, whose projections are strings.
\<close>

record column =
  is_media_type :: bool
  is_stored :: bool

datatype sel_expr = ColumnRef string | FileUrl string | LocalPath string

record trow =
  rowid :: rowid
  cell :: "sel_expr \<Rightarrow> string"

record table =
  get_name :: string
  columns :: "string \<rightharpoonup> column"
  rows :: "trow list"

record data_row =
  row_rowid :: rowid
  vals :: "string list"

text \<open>\<^verbatim>\<open>t.select(*selection)._exec()\<close>\<close>

definition select_exec :: "table \<Rightarrow> sel_expr list \<Rightarrow> data_row list" where
  "select_exec t selection =
     map (\<lambda>r. \<lparr>row_rowid = rowid r, vals = map (cell r) selection\<rparr>) (rows t)"

section \<open>Pull merger\<close>

definition ANNOTATIONS_COLUMN :: string where
  "ANNOTATIONS_COLUMN = ''annotations''"

text \<open>
  An update record \<^verbatim>\<open>{'_rowid': ..., annotations_column: ...}\<close>; \<open>None\<close> is Python's
  \<^verbatim>\<open>None\<close>, in either field.
\<close>

record update =
  u_rowid :: "rowid option"
  u_column :: string
  u_value :: "annotation list option"

datatype table_call = BatchUpdate "update list"

datatype stdout_line =
    Synced nat nat   \<comment> \<open>\<^verbatim>\<open>Synced a annotation(s) from n existing task(s)\<close>\<close>
  | Created nat      \<comment> \<open>\<^verbatim>\<open>Created n new task(s)\<close>\<close>

text \<open>The list comprehension that builds \<^verbatim>\<open>updates\<close>.\<close>

fun build_updates :: "string \<Rightarrow> task list \<Rightarrow> error + update list" where
  "build_updates annotations_column [] = Inr []"
| "build_updates annotations_column (t # ts) =
     (case index_rowid t of
        Inl err \<Rightarrow> Inl err
      | Inr r \<Rightarrow>
          (case build_updates annotations_column ts of
             Inl err \<Rightarrow> Inl err
           | Inr us \<Rightarrow>
               Inr (\<lparr>u_rowid = r, u_column = annotations_column,
                     u_value = (if length (annotations t) > 0
                                then Some (annotations t) else None)\<rparr> # us)))"

record pull_effects =
  table_calls :: "table_call list"
  pull_log :: "log_msg list"
  pull_stdout :: "stdout_line list"

text \<open>
  The assertion, then \<^verbatim>\<open>next(k for k, v in col_mapping.items() if v == ANNOTATIONS_COLUMN)\<close>,
  the first key mapped to the annotations field. An error is raised before any call on
  the table, so a result with an error carries no effects.
\<close>

definition update_table_from_tasks ::
  "table \<Rightarrow> (string \<times> string) list \<Rightarrow> task list \<Rightarrow> error + pull_effects" where
  "update_table_from_tasks t col_mapping ts =
     (if ANNOTATIONS_COLUMN \<notin> set (map snd col_mapping) then Inl AssertionError
      else case find (\<lambda>(k, v). v = ANNOTATIONS_COLUMN) col_mapping of
        None \<Rightarrow> Inl StopIteration
      | Some (annotations_column, v) \<Rightarrow>
          (case build_updates annotations_column ts of
             Inl err \<Rightarrow> Inl err
           | Inr updates \<Rightarrow>
               if length updates > 0 then
                 Inr \<lparr>table_calls = [BatchUpdate updates],
                      pull_log = [UpdatingTable (get_name t) annotations_column (length updates)],
                      pull_stdout = [Synced (sum_list (map (\<lambda>t. length (annotations t)) ts))
                                            (length updates)]\<rparr>
               else Inr \<lparr>table_calls = [], pull_log = [], pull_stdout = []\<rparr>))"

section \<open>Push reconciler\<close>

text \<open>
  The Python objects a task record can hold as its \<^verbatim>\<open>data\<close>: a dictionary from field
  names to values, or the iterator that \<^verbatim>\<open>zip(names, values)\<close> returns, which yields
  the pairs once and is no dictionary. The source stores
  \<^verbatim>\<open>zip(r_push_cols, row.vals)\<close>.
\<close>

datatype pyobj =
    PyDict "(string \<times> string) list"
  | PyZip "(string \<times> string) list"

record push_task =
  data :: pyobj
  meta :: rowid

datatype remote_call =
    ImportFile string            \<comment> \<open>\<^verbatim>\<open>project.import_tasks(file)\<close>\<close>
  | UpdateTask nat rowid         \<comment> \<open>\<^verbatim>\<open>project.update_task(task_id, meta={'rowid': rowid})\<close>\<close>
  | ImportTasks "push_task list" \<comment> \<open>\<^verbatim>\<open>project.import_tasks(tasks)\<close>\<close>

text \<open>
  The remote project as the push sees it: its label config (the parsed markup), the
  create and update calls the push has issued to it, with their arguments, and the
  identifier it gives to the next task it creates (the service is taken to number its
  tasks in sequence; the file upload returns the one identifier of the task it
  creates). What the client library does with the arguments of a call is no part of
  the source and is not modelled.
\<close>

record project =
  label_config :: element
  next_task_id :: nat
  remote_calls :: "remote_call list"

definition import_file :: "string \<Rightarrow> project \<Rightarrow> nat \<times> project" where
  "import_file file p =
     (next_task_id p,
      p\<lparr>next_task_id := next_task_id p + 1,
        remote_calls := remote_calls p @ [ImportFile file]\<rparr>)"

definition update_task :: "nat \<Rightarrow> rowid \<Rightarrow> project \<Rightarrow> project" where
  "update_task tid r p = p\<lparr>remote_calls := remote_calls p @ [UpdateTask tid r]\<rparr>"

text \<open>The bulk create call; the push does not use what it returns.\<close>

definition import_tasks :: "push_task list \<Rightarrow> project \<Rightarrow> project" where
  "import_tasks ts p = p\<lparr>remote_calls := remote_calls p @ [ImportTasks ts]\<rparr>"

definition get_push_columns :: "project \<Rightarrow> error + (string \<rightharpoonup> column_type)" where
  "get_push_columns p = parse_project_config (label_config p)"

text \<open>
  \<^verbatim>\<open>{tuple(task['meta']['rowid']) for task in existing_tasks}\<close>; \<^verbatim>\<open>tuple(None)\<close> is a
  \<^verbatim>\<open>TypeError\<close>.
\<close>

fun row_ids_of :: "task list \<Rightarrow> error + rowid list" where
  "row_ids_of [] = Inr []"
| "row_ids_of (t # ts) =
     (case index_rowid t of
        Inl err \<Rightarrow> Inl err
      | Inr None \<Rightarrow> Inl TypeError
      | Inr (Some r) \<Rightarrow>
          (case row_ids_of ts of Inl err \<Rightarrow> Inl err | Inr rs \<Rightarrow> Inr (r # rs)))"

text \<open>
  The entries of \<^verbatim>\<open>col_mapping\<close> whose remote name is a push column, in dictionary
  order. \<^verbatim>\<open>t_push_cols\<close> is their keys and \<^verbatim>\<open>r_push_cols\<close>, which the source reads
  back as \<^verbatim>\<open>col_mapping[col_name]\<close>, their values. The source calls
  \<^verbatim>\<open>get_push_columns()\<close> once for every entry.
\<close>

fun push_items :: "project \<Rightarrow> (string \<times> string) list \<Rightarrow> error + (string \<times> string) list" where
  "push_items p [] = Inr []"
| "push_items p ((t_col_name, r_col_name) # rest) =
     (case get_push_columns p of
        Inl err \<Rightarrow> Inl err
      | Inr push_columns \<Rightarrow>
          (case push_items p rest of
             Inl err \<Rightarrow> Inl err
           | Inr items \<Rightarrow>
               Inr (if push_columns r_col_name \<noteq> None
                    then (t_col_name, r_col_name) # items else items)))"

text \<open>
  The loop that rejects a media column that is not stored.
  \<^verbatim>\<open>t_col_types[col_name]\<close> of a name that is no column of the table is a \<^verbatim>\<open>KeyError\<close>.
\<close>

fun check_stored :: "table \<Rightarrow> string list \<Rightarrow> error + unit" where
  "check_stored t [] = Inr ()"
| "check_stored t (col_name # rest) =
     (case columns t col_name of
        None \<Rightarrow> Inl KeyError
      | Some c \<Rightarrow>
          if is_media_type c \<and> \<not> is_stored c then Inl (MediaNotStored col_name)
          else check_stored t rest)"

text \<open>
  \<^verbatim>\<open>is_media_type()\<close> of a push column, read after \<open>check_stored\<close> has looked every
  push column up.
\<close>

definition media_col :: "table \<Rightarrow> string \<Rightarrow> bool" where
  "media_col t col_name =
     (case columns t col_name of None \<Rightarrow> False | Some c \<Rightarrow> is_media_type c)"

text \<open>
  The single-media path: the loop over the rows, with the counter \<^verbatim>\<open>tasks_created\<close>.
  \<^verbatim>\<open>row.vals[-1]\<close> is the local path.
\<close>

fun upload_rows ::
  "rowid list \<Rightarrow> data_row list \<Rightarrow> nat \<Rightarrow> project \<Rightarrow> (error + nat) \<times> project" where
  "upload_rows row_ids_in_ls [] tasks_created p = (Inr tasks_created, p)"
| "upload_rows row_ids_in_ls (row # rest) tasks_created p =
     (if row_rowid row \<notin> set row_ids_in_ls then
        (case vals row of
           [] \<Rightarrow> (Inl IndexError, p)
         | v # vs \<Rightarrow>
             (case import_file (last (v # vs)) p of
                (tid, p') \<Rightarrow>
                  upload_rows row_ids_in_ls rest (tasks_created + 1)
                    (update_task tid (row_rowid row) p')))
      else upload_rows row_ids_in_ls rest tasks_created p)"

definition startswith :: "string \<Rightarrow> string \<Rightarrow> bool" where
  "startswith s pre = (take (length pre) s = pre)"

text \<open>
  The general path. \<open>validate_row\<close> is \<^verbatim>\<open>for i in range(len(row.vals))\<close>, called with
  the indices \<open>[0..<length (vals row)]\<close>; \<^verbatim>\<open>t_push_cols[i]\<close> beyond the list is an
  \<^verbatim>\<open>IndexError\<close>.
\<close>

fun validate_row :: "table \<Rightarrow> string list \<Rightarrow> string list \<Rightarrow> nat list \<Rightarrow> error + unit" where
  "validate_row t t_push_cols vs [] = Inr ()"
| "validate_row t t_push_cols vs (i # rest) =
     (if length t_push_cols \<le> i \<or> length vs \<le> i then Inl IndexError
      else if media_col t (t_push_cols ! i) \<and> startswith (vs ! i) ''file://''
      then Inl LocalMediaMultiField
      else validate_row t t_push_cols vs rest)"

definition task_record :: "string list \<Rightarrow> data_row \<Rightarrow> push_task" where
  "task_record r_push_cols row =
     \<lparr>data = PyZip (zip r_push_cols (vals row)), meta = row_rowid row\<rparr>"

fun build_tasks ::
  "table \<Rightarrow> string list \<Rightarrow> string list \<Rightarrow> data_row list \<Rightarrow> error + push_task list" where
  "build_tasks t t_push_cols r_push_cols [] = Inr []"
| "build_tasks t t_push_cols r_push_cols (row # rest) =
     (case validate_row t t_push_cols (vals row) [0..<length (vals row)] of
        Inl err \<Rightarrow> Inl err
      | Inr u \<Rightarrow>
          (case build_tasks t t_push_cols r_push_cols rest of
             Inl err \<Rightarrow> Inl err
           | Inr ts \<Rightarrow>
               Inr (task_record r_push_cols row # ts)))"

text \<open>\<^verbatim>\<open>more_itertools.batched(xs, n)\<close> for \<open>n \<ge> 1\<close>.\<close>

function batched :: "nat \<Rightarrow> 'a list \<Rightarrow> 'a list list" where
  "batched n xs = (if n = 0 \<or> xs = [] then [] else take n xs # batched n (drop n xs))"
  by pat_completeness auto
termination
  by (relation "measure (\<lambda>(n, xs). length xs)") auto

fun import_pages ::
  "table \<Rightarrow> string list \<Rightarrow> string list \<Rightarrow> data_row list list \<Rightarrow> project
     \<Rightarrow> (error + stdout_line list) \<times> project" where
  "import_pages t t_push_cols r_push_cols [] p = (Inr [], p)"
| "import_pages t t_push_cols r_push_cols (page # pages) p =
     (case build_tasks t t_push_cols r_push_cols page of
        Inl err \<Rightarrow> (Inl err, p)
      | Inr ts \<Rightarrow> import_pages t t_push_cols r_push_cols pages (import_tasks ts p))"

text \<open>The local variables \<^verbatim>\<open>selection\<close> and \<^verbatim>\<open>new_rows\<close> of the general path.\<close>

definition selection :: "table \<Rightarrow> string list \<Rightarrow> sel_expr list" where
  "selection t t_push_cols =
     map (\<lambda>col_name. if media_col t col_name then FileUrl col_name else ColumnRef col_name)
       t_push_cols"

definition new_rows :: "table \<Rightarrow> string list \<Rightarrow> rowid list \<Rightarrow> data_row list" where
  "new_rows t t_push_cols row_ids_in_ls =
     filter (\<lambda>row. row_rowid row \<notin> set row_ids_in_ls)
       (select_exec t (selection t t_push_cols))"

definition create_tasks_from_table ::
  "project \<Rightarrow> table \<Rightarrow> (string \<times> string) list \<Rightarrow> task list
     \<Rightarrow> (error + stdout_line list) \<times> project" where
  "create_tasks_from_table p t col_mapping existing_tasks =
     (case row_ids_of existing_tasks of
        Inl err \<Rightarrow> (Inl err, p)
      | Inr row_ids_in_ls \<Rightarrow>
     (case push_items p col_mapping of
        Inl err \<Rightarrow> (Inl err, p)
      | Inr items \<Rightarrow>
     (let t_push_cols = map fst items; r_push_cols = map snd items in
      case check_stored t t_push_cols of
        Inl err \<Rightarrow> (Inl err, p)
      | Inr u \<Rightarrow>
          if length t_push_cols = 1 \<and> media_col t (t_push_cols ! 0) then
            (case upload_rows row_ids_in_ls
                    (select_exec t [ColumnRef (t_push_cols ! 0), LocalPath (t_push_cols ! 0)])
                    0 p of
               (Inl err, p') \<Rightarrow> (Inl err, p')
             | (Inr tasks_created, p') \<Rightarrow> (Inr [Created tasks_created], p'))
          else
            import_pages t t_push_cols r_push_cols
              (batched PAGE_SIZE (new_rows t t_push_cols row_ids_in_ls)) p)))"

section \<open>Vocabulary of the properties\<close>

text \<open>
  The variable an element declares: the \<^verbatim>\<open>value\<close> attribute without its sigil, when
  the attribute is there and begins with \<^verbatim>\<open>$\<close>.
\<close>

definition var_of :: "element \<Rightarrow> string option" where
  "var_of e =
     (case attrib e ''value'' of
        None \<Rightarrow> None
      | Some v \<Rightarrow>
          (case v of [] \<Rightarrow> None | c # name \<Rightarrow> if c = CHR ''$'' then Some name else None))"

text \<open>The declared variables with the types their tags select, in document order.\<close>

fun var_pairs :: "element list \<Rightarrow> (string \<times> column_type) list" where
  "var_pairs [] = []"
| "var_pairs (e # es) =
     (case var_of e of
        None \<Rightarrow> var_pairs es
      | Some n \<Rightarrow>
          (case LS_TAG_MAP (lower (tag e)) of
             None \<Rightarrow> var_pairs es
           | Some ty \<Rightarrow> (n, ty) # var_pairs es))"

text \<open>
  The calls of the single-media path for a list of rows, the first task created getting
  the identifier \<open>tid\<close>: for each row one upload of the file at its local path, then
  the update that puts the row's rowid on the task the upload has just created.
\<close>

fun upload_calls :: "nat \<Rightarrow> string \<Rightarrow> trow list \<Rightarrow> remote_call list" where
  "upload_calls tid col_name [] = []"
| "upload_calls tid col_name (r # rs) =
     ImportFile (cell r (LocalPath col_name)) # UpdateTask tid (rowid r)
       # upload_calls (tid + 1) col_name rs"

text \<open>\<^verbatim>\<open>isinstance(x, dict)\<close>: the object is a mapping from field names to values.\<close>

fun is_mapping :: "pyobj \<Rightarrow> bool" where
  "is_mapping (PyDict kvs) = True"
| "is_mapping (PyZip kvs) = False"

text \<open>A projected row that holds a local-file reference in a media column.\<close>

definition has_local_media :: "table \<Rightarrow> string list \<Rightarrow> data_row \<Rightarrow> bool" where
  "has_local_media t t_push_cols row =
     list_ex (\<lambda>i. media_col t (t_push_cols ! i) \<and> startswith (vals row ! i) ''file://'')
       [0..<length (vals row)]"

text \<open>The update record the pull merger builds for a task that carries a rowid.\<close>

definition update_of :: "string \<Rightarrow> task \<Rightarrow> update" where
  "update_of c x =
     \<lparr>u_rowid = get_rowid x, u_column = c,
      u_value = (if annotations x = [] then None else Some (annotations x))\<rparr>"

text \<open>The rowids known remotely and the rowids of the local rows.\<close>

definition remote_rowids :: "task list \<Rightarrow> rowid set" where
  "remote_rowids E = {r. \<exists>x\<in>set E. get_rowid x = Some r}"

definition local_rowids :: "table \<Rightarrow> rowid set" where
  "local_rowids t = rowid ` set (rows t)"

subsection \<open>Example inputs\<close>

definition ex_cfg :: element where
  "ex_cfg = Element ''View'' Map.empty
     [Element ''Text'' [''value'' \<mapsto> ''$prompt''] [],
      Element ''IMAGE'' [''value'' \<mapsto> ''$img''] [],
      Element ''Header'' [''value'' \<mapsto> ''Title''] [],
      Element ''Audio'' [''value'' \<mapsto> ''$img''] []]"

definition ex_service :: "nat \<Rightarrow> nat \<Rightarrow> page_result" where
  "ex_service page page_size =
     (if page = 1 then
        \<lparr>end_pagination = False,
         tasks = [\<lparr>task_id = 7, meta_rowid = Rowid [1], annotations = []\<rparr>,
                  \<lparr>task_id = 8, meta_rowid = NoRowid, annotations = [''a'']\<rparr>]\<rparr>
      else if page = 2 then
        \<lparr>end_pagination = False,
         tasks = [\<lparr>task_id = 9, meta_rowid = NullRowid, annotations = []\<rparr>,
                  \<lparr>task_id = 10, meta_rowid = Rowid [2], annotations = [''b'']\<rparr>]\<rparr>
      else \<lparr>end_pagination = True, tasks = []\<rparr>)"

definition ex_tasks :: "task list" where
  "ex_tasks = [\<lparr>task_id = 7, meta_rowid = Rowid [1], annotations = []\<rparr>,
               \<lparr>task_id = 10, meta_rowid = Rowid [2], annotations = [''b'']\<rparr>]"

definition ex_mapping :: "(string \<times> string) list" where
  "ex_mapping = [(''img'', ''image''), (''labels'', ''annotations'')]"

definition ex_push_cfg :: element where
  "ex_push_cfg = Element ''View'' Map.empty
     [Element ''Image'' [''value'' \<mapsto> ''$image''] [],
      Element ''Text'' [''value'' \<mapsto> ''$text''] []]"

definition ex_project :: project where
  "ex_project = \<lparr>label_config = ex_push_cfg, next_task_id = 100, remote_calls = []\<rparr>"

definition ex_push_mapping :: "(string \<times> string) list" where
  "ex_push_mapping = [(''img'', ''image''), (''caption'', ''text''), (''labels'', ''annotations'')]"

definition ex_row :: "int \<Rightarrow> string \<Rightarrow> string \<Rightarrow> trow" where
  "ex_row i url path =
     \<lparr>rowid = [i],
      cell = (\<lambda>e. case e of ColumnRef c \<Rightarrow> ''some text''
                    | FileUrl c \<Rightarrow> url
                    | LocalPath c \<Rightarrow> path)\<rparr>"

definition ex_columns :: "bool \<Rightarrow> (string \<rightharpoonup> column)" where
  "ex_columns stored =
     [''img'' \<mapsto> \<lparr>is_media_type = True, is_stored = stored\<rparr>,
      ''caption'' \<mapsto> \<lparr>is_media_type = False, is_stored = True\<rparr>,
      ''labels'' \<mapsto> \<lparr>is_media_type = False, is_stored = True\<rparr>]"

definition ex_table :: "bool \<Rightarrow> string \<Rightarrow> table" where
  "ex_table stored url4 =
     \<lparr>get_name = ''films'', columns = ex_columns stored,
      rows = [ex_row 1 ''http://host/1.png'' ''/cache/1.png'',
              ex_row 2 ''http://host/2.png'' ''/cache/2.png'',
              ex_row 3 ''http://host/3.png'' ''/cache/3.png'',
              ex_row 4 url4 ''/cache/4.png'']\<rparr>"

definition ex_remote :: "task list" where
  "ex_remote = [\<lparr>task_id = 11, meta_rowid = Rowid [1], annotations = []\<rparr>,
                \<lparr>task_id = 12, meta_rowid = Rowid [2], annotations = [''b'']\<rparr>,
                \<lparr>task_id = 13, meta_rowid = Rowid [3], annotations = []\<rparr>]"

section \<open>Properties of the config parser\<close>

declare batched.simps [simp del]

lemma foldl_upd: "foldl (\<lambda>m (k, v). m(k \<mapsto> v)) m ps = m ++ map_of (rev ps)"
  by (induction ps arbitrary: m)
     (auto simp: map_add_upd_left fun_eq_iff map_add_def split: option.splits)

lemma dict_map_of: "dict ps = map_of (rev ps)"
  by (simp add: dict_def foldl_upd)

lemma lower_View: "lower ''View'' = ''view''"
  by (simp add: lower_def lower_char_def)

lemma extract_vars_append:
  "extract_vars pre = Inr ps \<Longrightarrow>
   extract_vars (pre @ es) =
     (case extract_vars es of Inl err \<Rightarrow> Inl err | Inr qs \<Rightarrow> Inr (ps @ qs))"
  by (induction pre arbitrary: ps) (auto split: option.splits list.splits sum.splits if_splits)

lemma extract_vars_append_err:
  "extract_vars pre = Inl err \<Longrightarrow> extract_vars (pre @ es) = Inl err"
  by (induction pre) (auto split: option.splits list.splits sum.splits if_splits)

lemma extract_vars_ok:
  "\<forall>e\<in>set es. attrib e ''value'' \<noteq> Some [] \<Longrightarrow>
   \<forall>e\<in>set es. var_of e \<noteq> None \<longrightarrow> LS_TAG_MAP (lower (tag e)) \<noteq> None \<Longrightarrow>
   extract_vars es = Inr (var_pairs es)"
  by (induction es) (auto simp: var_of_def split: option.splits list.splits sum.splits if_splits)

lemma var_pairs_append: "var_pairs (xs @ ys) = var_pairs xs @ var_pairs ys"
  by (induction xs) (auto split: option.splits)

lemma var_pairs_fst:
  "\<forall>e\<in>set es. var_of e \<noteq> None \<longrightarrow> LS_TAG_MAP (lower (tag e)) \<noteq> None \<Longrightarrow>
   fst ` set (var_pairs es) = {n. \<exists>e\<in>set es. var_of e = Some n}"
  by (induction es) (auto split: option.splits)

lemma var_pairs_fst_sub:
  "n \<in> fst ` set (var_pairs es) \<Longrightarrow> \<exists>e\<in>set es. var_of e = Some n"
  by (induction es) (auto split: option.splits)

lemma map_of_last_wins:
  "n \<notin> fst ` set qs \<Longrightarrow> map_of (rev (ps @ (n, ty) # qs)) n = Some ty"
  by (simp add: map_add_def map_of_eq_None_iff[THEN iffD2] split: option.splits)

lemma root_mismatch_error:
  "lower (tag root) \<noteq> ''view'' \<Longrightarrow> parse_project_config root = Inl RootNotView"
  by (simp add: parse_project_config_def)

lemma root_case_only_assertion:
  "lower (tag root) = ''view'' \<Longrightarrow> tag root \<noteq> ''View'' \<Longrightarrow>
   parse_project_config root = Inl AssertionError"
  by (simp add: parse_project_config_def)

text \<open>
  C3. A root tag that equals \<^verbatim>\<open>View\<close> only up to letter case passes the
  case-insensitive test and then fails the assertion \<^verbatim>\<open>root.tag == 'View'\<close>: the
  parser neither accepts such a root nor reports the structural error. A root tag that
  differs even up to case gets the structural error, and \<^verbatim>\<open>View\<close> itself is accepted.
\<close>

theorem root_tag_lowercase_assertion:
  "parse_project_config (Element ''view'' Map.empty []) = Inl AssertionError \<and>
   parse_project_config (Element ''VIEW'' Map.empty []) = Inl AssertionError \<and>
   parse_project_config (Element ''View'' Map.empty []) = Inr Map.empty \<and>
   parse_project_config (Element ''Label'' Map.empty []) = Inl RootNotView"
  by (simp add: parse_project_config_def lower_def lower_char_def
      extract_vars_from_project_config_def dict_def)

text \<open>
  C8. For a root tagged \<^verbatim>\<open>View\<close> whose children carry no empty \<^verbatim>\<open>value\<close>
  attribute: when the tag of every variable-declaring child is in the tag table
  (looked up in lower case), parsing returns a mapping whose keys are exactly the
  declared variable names, and a name is mapped to the type selected by the tag of the
  last child that declares it; when some variable-declaring child has a tag outside
  the table, and every such child before it has a tag inside, parsing raises the
  schema error that names that tag.
\<close>

theorem parse_project_config_vars:
  assumes root: "tag root = ''View''"
    and wf: "\<forall>e\<in>set (children root). attrib e ''value'' \<noteq> Some []"
  shows "((\<forall>e\<in>set (children root). var_of e \<noteq> None \<longrightarrow> LS_TAG_MAP (lower (tag e)) \<noteq> None) \<longrightarrow>
          (\<exists>m. parse_project_config root = Inr m \<and>
               dom m = {n. \<exists>e\<in>set (children root). var_of e = Some n} \<and>
               (\<forall>pre e post n. children root = pre @ e # post \<and> var_of e = Some n \<and>
                    (\<forall>x\<in>set post. var_of x \<noteq> Some n) \<longrightarrow> m n = LS_TAG_MAP (lower (tag e)))))
       \<and> (\<forall>pre e post. children root = pre @ e # post \<and>
              (\<forall>x\<in>set pre. var_of x \<noteq> None \<longrightarrow> LS_TAG_MAP (lower (tag x)) \<noteq> None) \<and>
              var_of e \<noteq> None \<and> LS_TAG_MAP (lower (tag e)) = None
            \<longrightarrow> parse_project_config root = Inl (UnsupportedDataType (tag e)))"
proof (intro conjI impI allI)
  assume mapped: "\<forall>e\<in>set (children root). var_of e \<noteq> None \<longrightarrow> LS_TAG_MAP (lower (tag e)) \<noteq> None"
  have ev: "extract_vars (children root) = Inr (var_pairs (children root))"
    using extract_vars_ok [OF wf mapped] .
  have res: "parse_project_config root = Inr (map_of (rev (var_pairs (children root))))"
    by (simp add: parse_project_config_def root lower_View
        extract_vars_from_project_config_def ev dict_map_of)
  have d: "dom (map_of (rev (var_pairs (children root))))
             = {n. \<exists>e\<in>set (children root). var_of e = Some n}"
    by (simp add: dom_map_of_conv_image_fst var_pairs_fst [OF mapped])
  have l: "map_of (rev (var_pairs (children root))) n = LS_TAG_MAP (lower (tag e))"
    if h: "children root = pre @ e # post \<and> var_of e = Some n \<and> (\<forall>x\<in>set post. var_of x \<noteq> Some n)"
    for pre e post n
  proof -
    from h have e: "e \<in> set (children root)" by simp
    with mapped h obtain ty where ty: "LS_TAG_MAP (lower (tag e)) = Some ty" by auto
    have n: "n \<notin> fst ` set (var_pairs post)"
      using h var_pairs_fst_sub [of n post] by blast
    have "var_pairs (children root) = var_pairs pre @ (n, ty) # var_pairs post"
      using h ty by (simp add: var_pairs_append)
    then show ?thesis
      using map_of_last_wins [OF n] ty by simp
  qed
  show "\<exists>m. parse_project_config root = Inr m \<and>
               dom m = {n. \<exists>e\<in>set (children root). var_of e = Some n} \<and>
               (\<forall>pre e post n. children root = pre @ e # post \<and> var_of e = Some n \<and>
                    (\<forall>x\<in>set post. var_of x \<noteq> Some n) \<longrightarrow> m n = LS_TAG_MAP (lower (tag e)))"
    using res d l by blast
next
  fix pre e post
  assume h: "children root = pre @ e # post \<and>
              (\<forall>x\<in>set pre. var_of x \<noteq> None \<longrightarrow> LS_TAG_MAP (lower (tag x)) \<noteq> None) \<and>
              var_of e \<noteq> None \<and> LS_TAG_MAP (lower (tag e)) = None"
  have wfpre: "\<forall>x\<in>set pre. attrib x ''value'' \<noteq> Some []"
    using wf h by simp
  obtain ps where ps: "extract_vars pre = Inr ps"
    using extract_vars_ok [OF wfpre] h by blast
  have "extract_vars (e # post) = Inl (UnsupportedDataType (tag e))"
    using h by (auto simp: var_of_def split: option.splits list.splits if_splits)
  then have "extract_vars (children root) = Inl (UnsupportedDataType (tag e))"
    using extract_vars_append [OF ps, of "e # post"] h by simp
  then show "parse_project_config root = Inl (UnsupportedDataType (tag e))"
    by (simp add: parse_project_config_def root lower_View extract_vars_from_project_config_def)
qed

theorem parse_project_config_vars_witness:
  "tag ex_cfg = ''View'' \<and>
   (\<exists>m. parse_project_config ex_cfg = Inr m \<and> dom m = {''prompt'', ''img''} \<and>
        m ''img'' = Some AudioType) \<and>
   parse_project_config (Element ''View'' Map.empty
      [Element ''Text'' [''value'' \<mapsto> ''$a''] [], Element ''Choices'' [''value'' \<mapsto> ''$b''] []])
     = Inl (UnsupportedDataType ''Choices'')"
proof -
  have r: "tag ex_cfg = ''View''" by (simp add: ex_cfg_def)
  have wf: "\<forall>e\<in>set (children ex_cfg). attrib e ''value'' \<noteq> Some []" by (simp add: ex_cfg_def)
  have mp: "\<forall>e\<in>set (children ex_cfg). var_of e \<noteq> None \<longrightarrow> LS_TAG_MAP (lower (tag e)) \<noteq> None"
    by (simp add: ex_cfg_def var_of_def LS_TAG_MAP_def lower_def lower_char_def)
  have dm: "{n. \<exists>e\<in>set (children ex_cfg). var_of e = Some n} = {''prompt'', ''img''}"
    by (auto simp add: ex_cfg_def var_of_def)
  from parse_project_config_vars [OF r wf] mp obtain m where
    m: "parse_project_config ex_cfg = Inr m"
       "dom m = {n. \<exists>e\<in>set (children ex_cfg). var_of e = Some n}"
       "\<forall>pre e post n. children ex_cfg = pre @ e # post \<and> var_of e = Some n \<and>
                    (\<forall>x\<in>set post. var_of x \<noteq> Some n) \<longrightarrow> m n = LS_TAG_MAP (lower (tag e))"
    by blast
  have "children ex_cfg = [Element ''Text'' [''value'' \<mapsto> ''$prompt''] [],
      Element ''IMAGE'' [''value'' \<mapsto> ''$img''] [],
      Element ''Header'' [''value'' \<mapsto> ''Title''] []] @ Element ''Audio'' [''value'' \<mapsto> ''$img''] [] # []
     \<and> var_of (Element ''Audio'' [''value'' \<mapsto> ''$img''] []) = Some ''img'' \<and>
       (\<forall>x\<in>set []. var_of x \<noteq> Some ''img'')"
    by (simp add: ex_cfg_def var_of_def)
  with m(3) have "m ''img'' = LS_TAG_MAP (lower (tag (Element ''Audio'' [''value'' \<mapsto> ''$img''] [])))"
    by blast
  then have img: "m ''img'' = Some AudioType"
    by (simp add: LS_TAG_MAP_def lower_def lower_char_def)
  let ?a = "Element ''Text'' [''value'' \<mapsto> ''$a''] []"
  let ?b = "Element ''Choices'' [''value'' \<mapsto> ''$b''] []"
  let ?bad = "Element ''View'' Map.empty [?a, ?b]"
  have br: "tag ?bad = ''View''" by simp
  have bwf: "\<forall>e\<in>set (children ?bad). attrib e ''value'' \<noteq> Some []" by simp
  have bh: "children ?bad = [?a] @ ?b # [] \<and>
              (\<forall>x\<in>set [?a]. var_of x \<noteq> None \<longrightarrow> LS_TAG_MAP (lower (tag x)) \<noteq> None) \<and>
              var_of ?b \<noteq> None \<and> LS_TAG_MAP (lower (tag ?b)) = None"
    by (simp add: var_of_def LS_TAG_MAP_def lower_def lower_char_def)
  from parse_project_config_vars [OF br bwf] bh
  have "parse_project_config ?bad = Inl (UnsupportedDataType (tag ?b))" by blast
  then have bad: "parse_project_config ?bad = Inl (UnsupportedDataType ''Choices'')" by simp
  from r m(1) m(2) dm img bad show ?thesis by simp
qed

text \<open>
  C10. When a child of an accepted root has the empty string as its \<^verbatim>\<open>value\<close>
  attribute, parsing returns no mapping; when the children before it raise nothing,
  the error is the \<^verbatim>\<open>IndexError\<close> of reading the first character, so the element is
  neither skipped nor reported as a schema error.
\<close>

theorem empty_value_index_error:
  assumes root: "tag root = ''View''"
    and ch: "children root = pre @ e # post"
    and emp: "attrib e ''value'' = Some []"
  shows "(\<forall>m. parse_project_config root \<noteq> Inr m) \<and>
         (\<forall>ps. extract_vars pre = Inr ps \<longrightarrow> parse_project_config root = Inl IndexError)"
proof -
  have e: "extract_vars (e # post) = Inl IndexError"
    using emp by simp
  have ok: "extract_vars (children root) = Inl IndexError" if "extract_vars pre = Inr ps" for ps
    using extract_vars_append [OF that, of "e # post"] e ch by simp
  have bad: "extract_vars (children root) = Inl err" if "extract_vars pre = Inl err" for err
    using extract_vars_append_err [OF that, of "e # post"] ch by simp
  have "\<exists>err. extract_vars (children root) = Inl err"
    using ok bad by (cases "extract_vars pre") auto
  then have "\<forall>m. parse_project_config root \<noteq> Inr m"
    by (auto simp: parse_project_config_def extract_vars_from_project_config_def)
  moreover have "\<forall>ps. extract_vars pre = Inr ps \<longrightarrow> parse_project_config root = Inl IndexError"
    using ok by (simp add: parse_project_config_def root lower_View extract_vars_from_project_config_def)
  ultimately show ?thesis by blast
qed

theorem empty_value_index_error_witness:
  "parse_project_config (Element ''View'' Map.empty
      [Element ''Text'' [''value'' \<mapsto> ''$prompt''] [], Element ''Image'' [''value'' \<mapsto> []] []])
   = Inl IndexError"
proof -
  let ?a = "Element ''Text'' [''value'' \<mapsto> ''$prompt''] []"
  let ?e = "Element ''Image'' [''value'' \<mapsto> []] []"
  let ?root = "Element ''View'' Map.empty [?a, ?e]"
  have 1: "tag ?root = ''View''" by simp
  have 2: "children ?root = [?a] @ ?e # []" by simp
  have 3: "attrib ?e ''value'' = Some []" by simp
  have 4: "extract_vars [?a] = Inr [(''prompt'', StringType)]"
    by (simp add: LS_TAG_MAP_def lower_def lower_char_def)
  from empty_value_index_error [OF 1 2 3] 4 show ?thesis by blast
qed

section \<open>Properties of the task enumerator\<close>

lemma scan_page_eq:
  "scan_page ts c =
     (filter (\<lambda>t. get_rowid t \<noteq> None) ts, c + length (filter (\<lambda>t. get_rowid t = None) ts))"
  by (induction ts arbitrary: c) (auto split: option.splits)

lemma get_all_tasks_loop_pages:
  "\<forall>k<n. \<not> end_pagination (svc (page + k) PAGE_SIZE) \<Longrightarrow>
   end_pagination (svc (page + n) PAGE_SIZE) \<Longrightarrow>
   get_all_tasks_loop svc page c acc =
     Some (acc @ filter (\<lambda>t. get_rowid t \<noteq> None)
                   (concat (map (\<lambda>k. tasks (svc k PAGE_SIZE)) [page..<page + n])),
           c + length (filter (\<lambda>t. get_rowid t = None)
                   (concat (map (\<lambda>k. tasks (svc k PAGE_SIZE)) [page..<page + n]))))"
proof (induction n arbitrary: page c acc)
  case 0
  then show ?case
    by (subst get_all_tasks_loop.simps) simp
next
  case (Suc n)
  have first: "\<not> end_pagination (svc page PAGE_SIZE)"
    using Suc.prems(1) by (metis add.right_neutral zero_less_Suc)
  have rest: "\<forall>k<n. \<not> end_pagination (svc (Suc page + k) PAGE_SIZE)"
    using Suc.prems(1) by (metis Suc_less_eq add_Suc_shift)
  have stop: "end_pagination (svc (Suc page + n) PAGE_SIZE)"
    using Suc.prems(2) by simp
  have unroll: "[page..<Suc (page + n)] = page # [Suc page..<Suc (page + n)]"
    by (simp add: upt_rec)
  have ih: "get_all_tasks_loop svc (Suc page) c' acc' =
     Some (acc' @ filter (\<lambda>t. get_rowid t \<noteq> None)
                   (concat (map (\<lambda>k. tasks (svc k PAGE_SIZE)) [Suc page..<Suc (page + n)])),
           c' + length (filter (\<lambda>t. get_rowid t = None)
                   (concat (map (\<lambda>k. tasks (svc k PAGE_SIZE)) [Suc page..<Suc (page + n)]))))"
    for c' acc'
    using Suc.IH [where page = "Suc page", OF rest stop] by simp
  show ?case
    by (subst get_all_tasks_loop.simps)
       (simp add: first scan_page_eq ih unroll del: upt_Suc)
qed

text \<open>
  C2. When the service answers pages \<open>1\<close> to \<open>n\<close> with tasks and signals the end of
  pagination at page \<open>n + 1\<close>, the enumerator returns: it yields exactly the tasks
  that carry a rowid, in page order and in the order within each page; the number of
  dropped tasks is the number of tasks without a rowid, and one warning carrying that
  number is logged when it is positive, none when it is zero.
\<close>

theorem get_all_tasks_yields:
  assumes more: "\<forall>k. 1 \<le> k \<and> k \<le> n \<longrightarrow> \<not> end_pagination (svc k PAGE_SIZE)"
    and stop: "end_pagination (svc (n + 1) PAGE_SIZE)"
  shows "get_all_tasks svc =
     (let all_tasks = concat (map (\<lambda>k. tasks (svc k PAGE_SIZE)) [1..<n + 1]);
          dropped = length (filter (\<lambda>t. get_rowid t = None) all_tasks)
      in Some (filter (\<lambda>t. get_rowid t \<noteq> None) all_tasks,
               if dropped > 0 then [SkippedUnrecognized dropped] else []))"
proof -
  have m: "\<forall>k<n. \<not> end_pagination (svc (1 + k) PAGE_SIZE)"
    using more by simp
  have s: "end_pagination (svc (1 + n) PAGE_SIZE)"
    using stop by (simp add: add.commute)
  show ?thesis
    using get_all_tasks_loop_pages
      [where svc = svc and page = 1 and n = n and c = 0 and acc = "[]", OF m s]
    by (simp add: get_all_tasks_def Let_def add.commute)
qed

theorem get_all_tasks_yields_witness:
  "get_all_tasks ex_service =
     Some ([\<lparr>task_id = 7, meta_rowid = Rowid [1], annotations = []\<rparr>,
            \<lparr>task_id = 10, meta_rowid = Rowid [2], annotations = [''b'']\<rparr>],
           [SkippedUnrecognized 2])"
proof -
  have more: "\<forall>k. 1 \<le> k \<and> k \<le> 2 \<longrightarrow> \<not> end_pagination (ex_service k PAGE_SIZE)"
    by (simp add: ex_service_def)
  have stop: "end_pagination (ex_service (2 + 1) PAGE_SIZE)"
    by (simp add: ex_service_def)
  have u: "[Suc 0..<3] = [1, 2::nat]"
    by (simp add: upt_rec)
  show ?thesis
    using get_all_tasks_yields [where svc = ex_service and n = 2, OF more stop]
    by (simp add: u ex_service_def Let_def get_rowid_def)
qed

section \<open>Properties of the pull merger\<close>

lemma build_updates_map:
  "\<forall>x\<in>set T. get_rowid x \<noteq> None \<Longrightarrow> build_updates c T = Inr (map (update_of c) T)"
  by (induction T)
     (auto simp: update_of_def index_rowid_def get_rowid_def split: rowid_entry.splits)

lemma find_annotations_column:
  "ANNOTATIONS_COLUMN \<in> snd ` set col_mapping \<Longrightarrow>
   \<exists>c. find (\<lambda>(k, v). v = ANNOTATIONS_COLUMN) col_mapping = Some (c, ANNOTATIONS_COLUMN) \<and>
       (c, ANNOTATIONS_COLUMN) \<in> set col_mapping"
  by (induction col_mapping) auto

text \<open>
  C4. When the column mapping has the annotations field among its values and every
  task carries a rowid (as every enumerated task does), the update list has one
  record per task, in order, keyed by the task's rowid, whose annotations column holds
  \<open>None\<close> for an empty annotation list and the list itself otherwise. The list does
  not depend on the table, so a second pull against the same tasks computes the same
  updates.
\<close>

theorem pull_update_set:
  assumes ann: "ANNOTATIONS_COLUMN \<in> snd ` set col_mapping"
    and rid: "\<forall>x\<in>set T. get_rowid x \<noteq> None"
  shows "\<exists>c. (c, ANNOTATIONS_COLUMN) \<in> set col_mapping \<and>
             build_updates c T = Inr (map (update_of c) T) \<and>
             (\<forall>t. \<exists>eff. update_table_from_tasks t col_mapping T = Inr eff \<and>
                   table_calls eff = (if T = [] then [] else [BatchUpdate (map (update_of c) T)]))"
proof -
  from find_annotations_column [OF ann] obtain c where
    c: "find (\<lambda>(k, v). v = ANNOTATIONS_COLUMN) col_mapping = Some (c, ANNOTATIONS_COLUMN)"
       "(c, ANNOTATIONS_COLUMN) \<in> set col_mapping"
    by blast
  have b: "build_updates c T = Inr (map (update_of c) T)"
    using build_updates_map [OF rid] .
  have "\<exists>eff. update_table_from_tasks t col_mapping T = Inr eff \<and>
          table_calls eff = (if T = [] then [] else [BatchUpdate (map (update_of c) T)])" for t
    using ann by (simp add: update_table_from_tasks_def c(1) b)
  with c(2) b show ?thesis by blast
qed

theorem pull_update_set_witness:
  "build_updates ''labels'' ex_tasks =
     Inr [\<lparr>u_rowid = Some [1], u_column = ''labels'', u_value = None\<rparr>,
          \<lparr>u_rowid = Some [2], u_column = ''labels'', u_value = Some [''b'']\<rparr>]"
proof -
  have ann: "ANNOTATIONS_COLUMN \<in> snd ` set ex_mapping"
    by (simp add: ANNOTATIONS_COLUMN_def ex_mapping_def)
  have rid: "\<forall>x\<in>set ex_tasks. get_rowid x \<noteq> None"
    by (simp add: ex_tasks_def get_rowid_def)
  from pull_update_set [OF ann rid] obtain c where
    c: "(c, ANNOTATIONS_COLUMN) \<in> set ex_mapping"
       "build_updates c ex_tasks = Inr (map (update_of c) ex_tasks)"
    by blast
  from c(1) have "c = ''labels''"
    by (auto simp: ANNOTATIONS_COLUMN_def ex_mapping_def)
  with c(2) show ?thesis
    by (simp add: ex_tasks_def update_of_def get_rowid_def)
qed

text \<open>
  C9. Under the pull precondition (the annotations field is among the values of the
  column mapping) and for tasks that carry a rowid, as the enumerated tasks do, the pull
  returns, and the calls it has made on the table are: the batched update exactly once,
  with the whole update list, when that list is not empty, and no call at all when it
  is empty.
\<close>

theorem pull_single_batch_update:
  assumes ann: "ANNOTATIONS_COLUMN \<in> snd ` set col_mapping"
    and rid: "\<forall>x\<in>set T. get_rowid x \<noteq> None"
  shows "\<exists>c eff.
           find (\<lambda>(k, v). v = ANNOTATIONS_COLUMN) col_mapping = Some (c, ANNOTATIONS_COLUMN) \<and>
           update_table_from_tasks t col_mapping T = Inr eff \<and>
           table_calls eff = (if T = [] then [] else [BatchUpdate (map (update_of c) T)]) \<and>
           length (table_calls eff) = (if T = [] then 0 else 1)"
proof -
  from find_annotations_column [OF ann] obtain c where
    c: "find (\<lambda>(k, v). v = ANNOTATIONS_COLUMN) col_mapping = Some (c, ANNOTATIONS_COLUMN)"
    by blast
  have b: "build_updates c T = Inr (map (update_of c) T)"
    using build_updates_map [OF rid] .
  have "\<exists>eff. update_table_from_tasks t col_mapping T = Inr eff \<and>
          table_calls eff = (if T = [] then [] else [BatchUpdate (map (update_of c) T)])"
    using ann by (simp add: update_table_from_tasks_def c b)
  then obtain eff where
    eff: "update_table_from_tasks t col_mapping T = Inr eff"
         "table_calls eff = (if T = [] then [] else [BatchUpdate (map (update_of c) T)])"
    by blast
  from eff(2) have "length (table_calls eff) = (if T = [] then 0 else 1)"
    by simp
  with c eff show ?thesis by blast
qed

theorem pull_single_batch_update_witness:
  "(\<exists>eff. update_table_from_tasks (ex_table True ''http://host/4.png'') ex_mapping ex_tasks = Inr eff \<and>
          table_calls eff =
            [BatchUpdate [\<lparr>u_rowid = Some [1], u_column = ''labels'', u_value = None\<rparr>,
                          \<lparr>u_rowid = Some [2], u_column = ''labels'', u_value = Some [''b'']\<rparr>]]) \<and>
   (\<exists>eff. update_table_from_tasks (ex_table True ''http://host/4.png'') ex_mapping [] = Inr eff \<and>
          table_calls eff = [])"
proof -
  let ?t = "ex_table True ''http://host/4.png''"
  have ann: "ANNOTATIONS_COLUMN \<in> snd ` set ex_mapping"
    by (simp add: ANNOTATIONS_COLUMN_def ex_mapping_def)
  have rid: "\<forall>x\<in>set ex_tasks. get_rowid x \<noteq> None"
    by (simp add: ex_tasks_def get_rowid_def)
  have rid0: "\<forall>x\<in>set ([] :: task list). get_rowid x \<noteq> None"
    by simp
  have f: "find (\<lambda>(k, v). v = ANNOTATIONS_COLUMN) ex_mapping = Some (''labels'', ANNOTATIONS_COLUMN)"
    by (simp add: ANNOTATIONS_COLUMN_def ex_mapping_def)
  from pull_single_batch_update [OF ann rid, of ?t] f obtain eff where
    eff: "update_table_from_tasks ?t ex_mapping ex_tasks = Inr eff"
         "table_calls eff =
            (if ex_tasks = [] then [] else [BatchUpdate (map (update_of ''labels'') ex_tasks)])"
    by auto
  from pull_single_batch_update [OF ann rid0, of ?t] obtain eff0 where
    eff0: "update_table_from_tasks ?t ex_mapping [] = Inr eff0" "table_calls eff0 = []"
    by auto
  from eff(2) have "table_calls eff =
            [BatchUpdate [\<lparr>u_rowid = Some [1], u_column = ''labels'', u_value = None\<rparr>,
                          \<lparr>u_rowid = Some [2], u_column = ''labels'', u_value = Some [''b'']\<rparr>]]"
    by (simp add: ex_tasks_def update_of_def get_rowid_def)
  with eff(1) eff0 show ?thesis by blast
qed

section \<open>Properties of the push reconciler\<close>

lemma row_ids_of_set:
  "row_ids_of E = Inr S \<Longrightarrow> set S = {r. \<exists>x\<in>set E. get_rowid x = Some r}"
  by (induction E arbitrary: S)
     (auto simp: index_rowid_def get_rowid_def split: rowid_entry.splits sum.splits)

lemma validate_row_eq:
  "\<forall>i\<in>set ixs. i < length tc \<and> i < length vs \<Longrightarrow>
   validate_row t tc vs ixs =
     (if list_ex (\<lambda>i. media_col t (tc ! i) \<and> startswith (vs ! i) ''file://'') ixs
      then Inl LocalMediaMultiField else Inr ())"
  by (induction ixs) auto

lemma build_tasks_eq:
  "\<forall>row\<in>set page. length (vals row) = length tc \<Longrightarrow>
   build_tasks t tc rc page =
     (if list_ex (has_local_media t tc) page then Inl LocalMediaMultiField
      else Inr (map (task_record rc) page))"
  by (induction page) (auto simp: validate_row_eq has_local_media_def)

lemma remote_calls_foldl:
  "remote_calls (foldl (\<lambda>p ts. import_tasks ts p) p tss) = remote_calls p @ map ImportTasks tss"
  by (induction tss arbitrary: p) (auto simp: import_tasks_def)

lemma import_pages_eq:
  "\<forall>page\<in>set pages. \<forall>row\<in>set page. length (vals row) = length tc \<Longrightarrow>
   import_pages t tc rc pages p =
     (if list_ex (list_ex (has_local_media t tc)) pages then Inl LocalMediaMultiField else Inr [],
      foldl (\<lambda>p ts. import_tasks ts p) p
        (map (map (task_record rc))
           (takeWhile (\<lambda>pg. \<not> list_ex (has_local_media t tc) pg) pages)))"
  by (induction pages arbitrary: p) (auto simp: build_tasks_eq)

lemma batched_Nil: "batched n [] = []"
  by (simp add: batched.simps)

lemma concat_batched: "0 < n \<Longrightarrow> concat (batched n xs) = xs"
  by (induction n xs rule: batched.induct) (subst batched.simps, auto)

lemma batched_sizes:
  "pg \<in> set (batched n xs) \<Longrightarrow> 0 < length pg \<and> length pg \<le> n"
proof (induction n xs rule: batched.induct)
  case (1 n xs)
  show ?case
  proof (cases "n = 0 \<or> xs = []")
    case True
    with "1.prems" show ?thesis by (simp add: batched.simps)
  next
    case False
    with "1.prems" have "pg = take n xs \<or> pg \<in> set (batched n (drop n xs))"
      by (subst (asm) batched.simps) simp
    with False "1.IH" show ?thesis by auto
  qed
qed

lemma batched_full:
  "i + 1 < length (batched n xs) \<Longrightarrow> length (batched n xs ! i) = n"
proof (induction n xs arbitrary: i rule: batched.induct)
  case (1 n xs)
  show ?case
  proof (cases "n = 0 \<or> xs = []")
    case True
    with "1.prems" show ?thesis by (simp add: batched.simps)
  next
    case False
    have b: "batched n xs = take n xs # batched n (drop n xs)"
      using False by (subst batched.simps) simp
    show ?thesis
    proof (cases i)
      case 0
      with "1.prems" b have "batched n (drop n xs) \<noteq> []" by auto
      then have "drop n xs \<noteq> []" by (auto simp: batched_Nil)
      then have "n < length xs" by simp
      with 0 b show ?thesis by simp
    next
      case (Suc j)
      with "1.prems" b have "j + 1 < length (batched n (drop n xs))" by simp
      with "1.IH" [OF False] have "length (batched n (drop n xs) ! j) = n" by blast
      with Suc b show ?thesis by simp
    qed
  qed
qed

lemma select_exec_vals:
  "row \<in> set (select_exec t sel) \<Longrightarrow> length (vals row) = length sel"
  by (auto simp: select_exec_def)

lemma new_rows_vals:
  "row \<in> set (new_rows t tc S) \<Longrightarrow> length (vals row) = length tc"
  by (auto simp: new_rows_def selection_def dest: select_exec_vals)

lemma count_list_filter_distinct:
  "distinct xs \<Longrightarrow> count_list (filter P xs) r = (if r \<in> set xs \<and> P r then 1 else 0)"
  by (induction xs) auto

lemma upload_rows_none:
  "\<forall>row\<in>set rs. row_rowid row \<in> set S \<Longrightarrow> upload_rows S rs n p = (Inr n, p)"
  by (induction rs) auto

lemma select_exec_rowid_mem:
  "row \<in> set (select_exec t sel) \<Longrightarrow> row_rowid row \<in> rowid ` set (rows t)"
  by (auto simp: select_exec_def)

lemma create_general:
  assumes "row_ids_of E = Inr S" and "push_items p cm = Inr items"
    and "check_stored t (map fst items) = Inr ()"
    and "\<not> (length items = 1 \<and> media_col t (map fst items ! 0))"
  shows "create_tasks_from_table p t cm E =
           import_pages t (map fst items) (map snd items)
             (batched PAGE_SIZE (new_rows t (map fst items) S)) p"
  using assms by (auto simp: create_tasks_from_table_def Let_def)

lemma create_fast:
  assumes "row_ids_of E = Inr S" and "push_items p cm = Inr items"
    and "check_stored t (map fst items) = Inr ()"
    and "length items = 1 \<and> media_col t (map fst items ! 0)"
  shows "create_tasks_from_table p t cm E =
           (case upload_rows S
                   (select_exec t [ColumnRef (map fst items ! 0), LocalPath (map fst items ! 0)])
                   0 p of
              (Inl err, p') \<Rightarrow> (Inl err, p')
            | (Inr tasks_created, p') \<Rightarrow> (Inr [Created tasks_created], p'))"
  using assms by (auto simp: create_tasks_from_table_def Let_def)

lemma create_unchanged_when_all_remote:
  assumes sub: "local_rowids t \<subseteq> remote_rowids E"
  shows "snd (create_tasks_from_table p t cm E) = p"
proof (cases "row_ids_of E")
  case (Inl e)
  then show ?thesis by (simp add: create_tasks_from_table_def)
next
  case (Inr S)
  note S = this
  have SS: "set S = remote_rowids E"
    using row_ids_of_set [OF S] by (simp add: remote_rowids_def)
  show ?thesis
  proof (cases "push_items p cm")
    case (Inl e)
    then show ?thesis by (simp add: create_tasks_from_table_def S)
  next
    case (Inr items)
    note items = this
    show ?thesis
    proof (cases "check_stored t (map fst items)")
      case (Inl e)
      then show ?thesis by (simp add: create_tasks_from_table_def S items Let_def)
    next
      case (Inr u)
      then have st: "check_stored t (map fst items) = Inr ()" by simp
      show ?thesis
      proof (cases "length items = 1 \<and> media_col t (map fst items ! 0)")
        case True
        let ?rs = "select_exec t [ColumnRef (map fst items ! 0), LocalPath (map fst items ! 0)]"
        have "\<forall>row\<in>set ?rs. row_rowid row \<in> set S"
          using sub SS select_exec_rowid_mem [of _ t] by (auto simp: local_rowids_def)
        then have "upload_rows S ?rs 0 p = (Inr 0, p)"
          by (rule upload_rows_none)
        then show ?thesis
          by (simp add: create_fast [OF S items st True])
      next
        case False
        have "\<forall>row\<in>set (select_exec t (selection t (map fst items))). row_rowid row \<in> set S"
          using sub SS select_exec_rowid_mem [of _ t] by (auto simp: local_rowids_def)
        then have "new_rows t (map fst items) S = []"
          by (auto simp: new_rows_def filter_empty_conv)
        then show ?thesis
          by (simp add: create_general [OF S items st False] batched_Nil)
      qed
    qed
  qed
qed

lemma select_exec_fast:
  "select_exec t [ColumnRef c, LocalPath c] =
     map (\<lambda>r. \<lparr>row_rowid = rowid r, vals = [cell r (ColumnRef c), cell r (LocalPath c)]\<rparr>)
       (rows t)"
  by (simp add: select_exec_def)

lemma upload_rows_exact:
  "upload_rows S
     (map (\<lambda>r. \<lparr>row_rowid = rowid r, vals = [cell r (ColumnRef c), cell r (LocalPath c)]\<rparr>) rs)
     n p =
     (Inr (n + length (filter (\<lambda>r. rowid r \<notin> set S) rs)),
      p\<lparr>next_task_id := next_task_id p + length (filter (\<lambda>r. rowid r \<notin> set S) rs),
        remote_calls :=
          remote_calls p @ upload_calls (next_task_id p) c (filter (\<lambda>r. rowid r \<notin> set S) rs)\<rparr>)"
  by (induction rs arbitrary: n p) (auto simp: import_file_def update_task_def)

lemma single_media_run:
  assumes S: "row_ids_of E = Inr S" and items: "push_items p cm = Inr [(c, rc)]"
    and col: "columns t c = Some col" "is_media_type col" "is_stored col"
  shows "create_tasks_from_table p t cm E =
     (Inr [Created (length (filter (\<lambda>r. rowid r \<notin> remote_rowids E) (rows t)))],
      p\<lparr>next_task_id :=
          next_task_id p + length (filter (\<lambda>r. rowid r \<notin> remote_rowids E) (rows t)),
        remote_calls :=
          remote_calls p @
          upload_calls (next_task_id p) c
            (filter (\<lambda>r. rowid r \<notin> remote_rowids E) (rows t))\<rparr>)"
proof -
  have SS: "set S = remote_rowids E"
    using row_ids_of_set [OF S] by (simp add: remote_rowids_def)
  have st: "check_stored t (map fst [(c, rc)]) = Inr ()"
    using col by simp
  have fast: "length [(c, rc)] = 1 \<and> media_col t (map fst [(c, rc)] ! 0)"
    using col by (simp add: media_col_def)
  show ?thesis
    using create_fast [OF S items st fast]
    by (simp add: select_exec_fast upload_rows_exact SS)
qed

text \<open>
  C1. With \<open>L\<close> the rowids of the local rows (each row has its own) and
  \<open>S\<close> the rowids carried by the enumerated remote tasks: when every local rowid is in
  \<open>S\<close>, the push issues no remote call, on either path and whether or not it raises.
  On the single-media path (exactly one push column, a media column that is stored), with
  the enumerated tasks carrying rowids, the push returns, reports the number of rows of
  \<open>L - S\<close>, and its remote calls are, for each row whose rowid is in \<open>L - S\<close>, in row
  order and once, the upload of that row's file followed by the update that puts the
  row's rowid on the task this upload created; no call is made for a rowid in \<open>S\<close>.
\<close>

theorem push_creates_missing_rows:
  assumes dist: "distinct (map rowid (rows t))"
  shows "(local_rowids t \<subseteq> remote_rowids E \<longrightarrow> snd (create_tasks_from_table p t cm E) = p) \<and>
         (\<forall>S c rc col.
            row_ids_of E = Inr S \<and> push_items p cm = Inr [(c, rc)] \<and>
            columns t c = Some col \<and> is_media_type col \<and> is_stored col \<longrightarrow>
            (let new = filter (\<lambda>r. rowid r \<notin> remote_rowids E) (rows t) in
               create_tasks_from_table p t cm E =
                 (Inr [Created (length new)],
                  p\<lparr>next_task_id := next_task_id p + length new,
                    remote_calls := remote_calls p @ upload_calls (next_task_id p) c new\<rparr>) \<and>
               (\<forall>r. count_list (map rowid new) r
                      = (if r \<in> local_rowids t - remote_rowids E then 1 else 0))))"
proof (intro conjI impI allI)
  assume "local_rowids t \<subseteq> remote_rowids E"
  then show "snd (create_tasks_from_table p t cm E) = p"
    by (rule create_unchanged_when_all_remote)
next
  fix S c rc col
  assume h: "row_ids_of E = Inr S \<and> push_items p cm = Inr [(c, rc)] \<and>
            columns t c = Some col \<and> is_media_type col \<and> is_stored col"
  let ?new = "filter (\<lambda>r. rowid r \<notin> remote_rowids E) (rows t)"
  have run: "create_tasks_from_table p t cm E =
                 (Inr [Created (length ?new)],
                  p\<lparr>next_task_id := next_task_id p + length ?new,
                    remote_calls := remote_calls p @ upload_calls (next_task_id p) c ?new\<rparr>)"
    using h single_media_run [of E S p cm c rc t col] by blast
  have "map rowid ?new = filter (\<lambda>r. r \<notin> remote_rowids E) (map rowid (rows t))"
    by (simp add: filter_map comp_def)
  then have cnt: "count_list (map rowid ?new) r
                    = (if r \<in> local_rowids t - remote_rowids E then 1 else 0)" for r
    using count_list_filter_distinct [OF dist, of "\<lambda>r. r \<notin> remote_rowids E" r]
    by (simp add: local_rowids_def)
  show "let new = filter (\<lambda>r. rowid r \<notin> remote_rowids E) (rows t) in
               create_tasks_from_table p t cm E =
                 (Inr [Created (length new)],
                  p\<lparr>next_task_id := next_task_id p + length new,
                    remote_calls := remote_calls p @ upload_calls (next_task_id p) c new\<rparr>) \<and>
               (\<forall>r. count_list (map rowid new) r
                      = (if r \<in> local_rowids t - remote_rowids E then 1 else 0))"
    unfolding Let_def using run cnt by blast
qed

lemma batched_single: "xs \<noteq> [] \<Longrightarrow> length xs \<le> n \<Longrightarrow> batched n xs = [xs]"
proof -
  assume a: "xs \<noteq> []" "length xs \<le> n"
  then have "n \<noteq> 0" by (cases xs) auto
  with a show ?thesis by (subst batched.simps) (simp add: batched_Nil)
qed

lemma ex_row_ids: "row_ids_of ex_remote = Inr [[1], [2], [3]]"
  by (simp add: ex_remote_def index_rowid_def)

lemma ex_push_columns:
  "get_push_columns ex_project = Inr [''image'' \<mapsto> ImageType, ''text'' \<mapsto> StringType]"
  by (simp add: get_push_columns_def ex_project_def ex_push_cfg_def parse_project_config_def
      extract_vars_from_project_config_def lower_def lower_char_def LS_TAG_MAP_def dict_def)

lemma ex_items:
  "push_items ex_project ex_push_mapping = Inr [(''img'', ''image''), (''caption'', ''text'')]"
  by (simp add: ex_push_mapping_def ex_push_columns)

lemma ex_media:
  "media_col (ex_table s u) ''img''" "\<not> media_col (ex_table s u) ''caption''"
  by (simp_all add: media_col_def ex_table_def ex_columns_def)

lemma ex_stored: "check_stored (ex_table True u) [''img'', ''caption''] = Inr ()"
  by (simp add: ex_table_def ex_columns_def)

lemma ex_new_rows:
  "new_rows (ex_table s u) [''img'', ''caption''] [[1], [2], [3]]
     = [\<lparr>row_rowid = [4], vals = [u, ''some text'']\<rparr>]"
  by (simp add: new_rows_def selection_def select_exec_def ex_media)
     (simp add: ex_table_def ex_row_def)

lemma ex_general_path:
  "create_tasks_from_table ex_project (ex_table True u) ex_push_mapping ex_remote
     = import_pages (ex_table True u) [''img'', ''caption''] [''image'', ''text'']
         (batched PAGE_SIZE [\<lparr>row_rowid = [4], vals = [u, ''some text'']\<rparr>]) ex_project"
proof -
  have st: "check_stored (ex_table True u) (map fst [(''img'', ''image''), (''caption'', ''text'')])
              = Inr ()"
    using ex_stored by simp
  have gen: "\<not> (length [(''img'', ''image''), (''caption'', ''text'')] = 1 \<and>
                media_col (ex_table True u) (map fst [(''img'', ''image''), (''caption'', ''text'')] ! 0))"
    by simp
  show ?thesis
    using create_general [OF ex_row_ids ex_items st gen] by (simp add: ex_new_rows)
qed

lemma ex_push_run:
  "create_tasks_from_table ex_project (ex_table True ''http://host/4.png'') ex_push_mapping ex_remote
     = (Inr [],
        \<lparr>label_config = ex_push_cfg, next_task_id = 100,
         remote_calls =
           [ImportTasks [\<lparr>data = PyZip [(''image'', ''http://host/4.png''), (''text'', ''some text'')],
                          meta = [4]\<rparr>]]\<rparr>)"
  by (simp add: ex_general_path batched_single PAGE_SIZE_def ex_media startswith_def
      task_record_def upt_rec)
     (simp add: import_tasks_def ex_project_def)

lemma ex_fast_items: "push_items ex_project ex_mapping = Inr [(''img'', ''image'')]"
  by (simp add: ex_mapping_def ex_push_columns)

lemma ex_remote_rowids: "remote_rowids ex_remote = {[1], [2], [3]}"
  by (auto simp: remote_rowids_def ex_remote_def get_rowid_def)

lemma ex_new_table_rows:
  "filter (\<lambda>r. rowid r \<notin> remote_rowids ex_remote) (rows (ex_table s u))
     = [ex_row 4 u ''/cache/4.png'']"
  by (simp add: ex_remote_rowids ex_table_def ex_row_def)

text \<open>
  The push does not create a task for every rowid of \<open>L - S\<close> whatever the columns
  are: when the push column is a media column that is not stored, the push raises before
  any call, and the local rowid 4, which no remote task carries, gets no task.
\<close>

theorem push_unstored_creates_nothing:
  "create_tasks_from_table ex_project (ex_table False ''http://host/4.png'') ex_mapping ex_remote
     = (Inl (MediaNotStored ''img''), ex_project) \<and>
   remote_calls ex_project = [] \<and>
   [4] \<in> local_rowids (ex_table False ''http://host/4.png'') - remote_rowids ex_remote"
proof -
  have "create_tasks_from_table ex_project (ex_table False ''http://host/4.png'') ex_mapping ex_remote
     = (Inl (MediaNotStored ''img''), ex_project)"
    by (simp add: create_tasks_from_table_def ex_row_ids ex_fast_items)
       (simp add: ex_table_def ex_columns_def)
  moreover have "remote_calls ex_project = []"
    by (simp add: ex_project_def)
  moreover have "[4] \<in> local_rowids (ex_table False ''http://host/4.png'') - remote_rowids ex_remote"
    by (simp add: ex_remote_rowids local_rowids_def ex_table_def ex_row_def)
  ultimately show ?thesis by blast
qed

theorem push_creates_missing_rows_witness:
  "create_tasks_from_table ex_project (ex_table True ''http://host/4.png'') ex_mapping ex_remote
     = (Inr [Created 1],
        \<lparr>label_config = ex_push_cfg, next_task_id = 101,
         remote_calls = [ImportFile ''/cache/4.png'', UpdateTask 100 [4]]\<rparr>) \<and>
   snd (create_tasks_from_table ex_project (ex_table True ''http://host/4.png'') ex_mapping
          (\<lparr>task_id = 14, meta_rowid = Rowid [4], annotations = []\<rparr> # ex_remote))
     = ex_project"
proof -
  let ?t = "ex_table True ''http://host/4.png''"
  let ?all = "\<lparr>task_id = 14, meta_rowid = Rowid [4], annotations = []\<rparr> # ex_remote"
  have dist: "distinct (map rowid (rows ?t))"
    by (simp add: ex_table_def ex_row_def)
  have pre: "row_ids_of ex_remote = Inr [[1], [2], [3]] \<and>
             push_items ex_project ex_mapping = Inr [(''img'', ''image'')] \<and>
             columns ?t ''img'' = Some \<lparr>is_media_type = True, is_stored = True\<rparr> \<and>
             is_media_type \<lparr>is_media_type = True, is_stored = True\<rparr> \<and>
             is_stored \<lparr>is_media_type = True, is_stored = True\<rparr>"
    by (simp add: ex_row_ids ex_fast_items) (simp add: ex_table_def ex_columns_def)
  have sub: "local_rowids ?t \<subseteq> remote_rowids ?all"
    by (auto simp: local_rowids_def remote_rowids_def ex_remote_def get_rowid_def
        ex_table_def ex_row_def)
  from push_creates_missing_rows [OF dist, of ex_remote ex_project ex_mapping] pre
  have "create_tasks_from_table ex_project ?t ex_mapping ex_remote =
          (Inr [Created (length (filter (\<lambda>r. rowid r \<notin> remote_rowids ex_remote) (rows ?t)))],
           ex_project\<lparr>next_task_id :=
               next_task_id ex_project
                 + length (filter (\<lambda>r. rowid r \<notin> remote_rowids ex_remote) (rows ?t)),
             remote_calls :=
               remote_calls ex_project @
               upload_calls (next_task_id ex_project) ''img''
                 (filter (\<lambda>r. rowid r \<notin> remote_rowids ex_remote) (rows ?t))\<rparr>)"
    unfolding Let_def by blast
  then have run: "create_tasks_from_table ex_project ?t ex_mapping ex_remote
     = (Inr [Created 1],
        \<lparr>label_config = ex_push_cfg, next_task_id = 101,
         remote_calls = [ImportFile ''/cache/4.png'', UpdateTask 100 [4]]\<rparr>)"
    by (simp add: ex_new_table_rows) (simp add: ex_project_def ex_row_def)
  from push_creates_missing_rows [OF dist, of ?all ex_project ex_mapping] sub
  have "snd (create_tasks_from_table ex_project ?t ex_mapping ?all) = ex_project"
    by blast
  with run show ?thesis by blast
qed

lemma pages_vals:
  assumes "page \<in> set (batched PAGE_SIZE (new_rows t tc S))" and "row \<in> set page"
  shows "length (vals row) = length tc"
proof -
  from assms have "row \<in> set (concat (batched PAGE_SIZE (new_rows t tc S)))" by auto
  then have "row \<in> set (new_rows t tc S)"
    by (simp add: concat_batched PAGE_SIZE_def)
  then show ?thesis by (rule new_rows_vals)
qed

lemma general_path_run:
  assumes S: "row_ids_of E = Inr S" and items: "push_items p cm = Inr items"
    and st: "check_stored t (map fst items) = Inr ()"
    and gen: "\<not> (length items = 1 \<and> media_col t (map fst items ! 0))"
  shows "create_tasks_from_table p t cm E =
     (if list_ex (list_ex (has_local_media t (map fst items)))
           (batched PAGE_SIZE (new_rows t (map fst items) S))
      then Inl LocalMediaMultiField else Inr [],
      foldl (\<lambda>p ts. import_tasks ts p) p
        (map (map (task_record (map snd items)))
           (takeWhile (\<lambda>pg. \<not> list_ex (has_local_media t (map fst items)) pg)
              (batched PAGE_SIZE (new_rows t (map fst items) S)))))"
proof -
  have len: "\<forall>page\<in>set (batched PAGE_SIZE (new_rows t (map fst items) S)).
               \<forall>row\<in>set page. length (vals row) = length (map fst items)"
    using pages_vals by blast
  show ?thesis
    by (simp only: create_general [OF S items st gen] import_pages_eq [OF len])
qed

lemma foldl_import_tasks:
  "foldl (\<lambda>p ts. import_tasks ts p) p tss = p\<lparr>remote_calls := remote_calls p @ map ImportTasks tss\<rparr>"
  by (induction tss arbitrary: p) (auto simp: import_tasks_def)

lemma general_path_clean_run:
  assumes S: "row_ids_of E = Inr S" and items: "push_items p cm = Inr items"
    and st: "check_stored t (map fst items) = Inr ()"
    and gen: "\<not> (length items = 1 \<and> media_col t (map fst items ! 0))"
    and clean: "\<forall>row\<in>set (new_rows t (map fst items) S). \<not> has_local_media t (map fst items) row"
  shows "create_tasks_from_table p t cm E =
     (Inr [],
      p\<lparr>remote_calls :=
          remote_calls p @
          map (\<lambda>page. ImportTasks (map (task_record (map snd items)) page))
            (batched PAGE_SIZE (new_rows t (map fst items) S))\<rparr>)"
proof -
  let ?pages = "batched PAGE_SIZE (new_rows t (map fst items) S)"
  have cat: "concat ?pages = new_rows t (map fst items) S"
    by (simp add: concat_batched PAGE_SIZE_def)
  have ok: "\<forall>pg\<in>set ?pages. \<not> list_ex (has_local_media t (map fst items)) pg"
  proof
    fix pg assume pg: "pg \<in> set ?pages"
    have "\<forall>row\<in>set pg. row \<in> set (concat ?pages)"
      using pg by auto
    then show "\<not> list_ex (has_local_media t (map fst items)) pg"
      using clean cat by (auto simp: list_ex_iff)
  qed
  then have none: "\<not> list_ex (list_ex (has_local_media t (map fst items))) ?pages"
    by (auto simp: list_ex_iff)
  have tw: "takeWhile (\<lambda>pg. \<not> list_ex (has_local_media t (map fst items)) pg) ?pages = ?pages"
    using ok by (simp add: takeWhile_eq_all_conv)
  show ?thesis
    using general_path_run [OF S items st gen] none
    by (simp add: tw foldl_import_tasks comp_def)
qed

text \<open>
  C5. The record the general path builds for a row holds as its \<open>data\<close> the iterator
  returned by \<^verbatim>\<open>zip(r_push_cols, row.vals)\<close>, which is no mapping from field names to
  values. For three remote tasks with rowids 1 to 3, four local rows with rowids 1 to 4
  and two push columns, the push issues one bulk create call, whose only record has
  \<open>meta\<close> the rowid 4 and such an iterator as \<open>data\<close>.
\<close>

theorem general_path_data_is_zip:
  "remote_calls (snd (create_tasks_from_table ex_project (ex_table True ''http://host/4.png'')
                        ex_push_mapping ex_remote))
     = [ImportTasks [\<lparr>data = PyZip [(''image'', ''http://host/4.png''), (''text'', ''some text'')],
                      meta = [4]\<rparr>]] \<and>
   \<not> is_mapping (PyZip [(''image'', ''http://host/4.png''), (''text'', ''some text'')]) \<and>
   (\<forall>r_push_cols row. \<not> is_mapping (data (task_record r_push_cols row)))"
  using ex_push_run by (simp add: task_record_def)

text \<open>
  C6. On the general path, when a new row holds a local-file reference (a value that
  begins with \<^verbatim>\<open>file://\<close>) in a media column, the push fails with the validation
  error, and the create calls issued are exactly those of the batches before the first
  batch that contains such a row: none for that batch, none for a later one.
\<close>

theorem local_file_rejected:
  assumes S: "row_ids_of E = Inr S" and items: "push_items p cm = Inr items"
    and st: "check_stored t (map fst items) = Inr ()"
    and gen: "\<not> (length items = 1 \<and> media_col t (map fst items ! 0))"
    and bad: "\<exists>row\<in>set (new_rows t (map fst items) S). has_local_media t (map fst items) row"
  shows "let t_push_cols = map fst items; r_push_cols = map snd items;
             pages = batched PAGE_SIZE (new_rows t t_push_cols S);
             sent = takeWhile (\<lambda>page. \<not> list_ex (has_local_media t t_push_cols) page) pages
         in fst (create_tasks_from_table p t cm E) = Inl LocalMediaMultiField \<and>
            remote_calls (snd (create_tasks_from_table p t cm E)) =
              remote_calls p @ map (\<lambda>page. ImportTasks (map (task_record r_push_cols) page)) sent \<and>
            length sent < length pages \<and>
            (\<forall>page\<in>set sent. \<forall>row\<in>set page. \<not> has_local_media t t_push_cols row)"
proof -
  let ?tc = "map fst items" and ?rc = "map snd items"
  let ?pages = "batched PAGE_SIZE (new_rows t ?tc S)"
  let ?sent = "takeWhile (\<lambda>page. \<not> list_ex (has_local_media t ?tc) page) ?pages"
  have cat: "concat ?pages = new_rows t ?tc S"
    by (simp add: concat_batched PAGE_SIZE_def)
  from bad obtain row where row: "row \<in> set (concat ?pages)" "has_local_media t ?tc row"
    using cat by auto
  then obtain page where page: "page \<in> set ?pages" "row \<in> set page" by auto
  with row(2) have dirty: "list_ex (list_ex (has_local_media t ?tc)) ?pages"
    by (auto simp: list_ex_iff)
  have "\<not> (\<forall>pg\<in>set ?pages. \<not> list_ex (has_local_media t ?tc) pg)"
    using page row(2) by (auto simp: list_ex_iff)
  then have "?sent \<noteq> ?pages"
    by (simp add: takeWhile_eq_all_conv)
  moreover have "length ?sent \<le> length ?pages"
    by (rule length_takeWhile_le)
  ultimately have short: "length ?sent < length ?pages"
    by (metis le_neq_implies_less takeWhile_eq_take take_all_iff order_refl)
  have ok: "\<forall>page\<in>set ?sent. \<forall>row\<in>set page. \<not> has_local_media t ?tc row"
    by (auto dest!: set_takeWhileD simp: list_ex_iff)
  have run: "create_tasks_from_table p t cm E =
      (Inl LocalMediaMultiField,
       foldl (\<lambda>p ts. import_tasks ts p) p (map (map (task_record ?rc)) ?sent))"
    using general_path_run [OF S items st gen] dirty by simp
  show ?thesis
    unfolding Let_def
    using short ok by (simp add: run remote_calls_foldl comp_def)
qed

lemma ex_local_bad:
  "has_local_media (ex_table True ''file:///tmp/4.png'') [''img'', ''caption'']
     \<lparr>row_rowid = [4], vals = [''file:///tmp/4.png'', ''some text'']\<rparr>"
  by (simp add: has_local_media_def ex_media startswith_def upt_rec)

theorem local_file_rejected_witness:
  "create_tasks_from_table ex_project (ex_table True ''file:///tmp/4.png'') ex_push_mapping ex_remote
     = (Inl LocalMediaMultiField, ex_project)"
proof -
  let ?t = "ex_table True ''file:///tmp/4.png''"
  let ?items = "[(''img'', ''image''), (''caption'', ''text'')]"
  have st: "check_stored ?t (map fst ?items) = Inr ()"
    using ex_stored by simp
  have gen: "\<not> (length ?items = 1 \<and> media_col ?t (map fst ?items ! 0))"
    by simp
  have bad: "\<exists>row\<in>set (new_rows ?t (map fst ?items) [[1], [2], [3]]).
               has_local_media ?t (map fst ?items) row"
    using ex_local_bad by (simp add: ex_new_rows)
  have tw: "takeWhile (\<lambda>page. \<not> list_ex (has_local_media ?t [''img'', ''caption'']) page)
              (batched PAGE_SIZE [\<lparr>row_rowid = [4], vals = [''file:///tmp/4.png'', ''some text'']\<rparr>])
            = []"
    using ex_local_bad by (simp add: batched_single PAGE_SIZE_def)
  from local_file_rejected [OF ex_row_ids ex_items st gen bad]
  have "fst (create_tasks_from_table ex_project ?t ex_push_mapping ex_remote) = Inl LocalMediaMultiField \<and>
        remote_calls (snd (create_tasks_from_table ex_project ?t ex_push_mapping ex_remote))
          = remote_calls ex_project"
    by (simp add: Let_def ex_new_rows tw)
  moreover have "snd (create_tasks_from_table ex_project ?t ex_push_mapping ex_remote)
          = ex_project"
    by (simp add: ex_general_path batched_single PAGE_SIZE_def ex_local_bad
        has_local_media_def ex_media startswith_def upt_rec)
  ultimately show ?thesis
    by (metis prod.collapse)
qed

lemma check_stored_bad:
  "\<exists>c\<in>set cs. \<exists>ci. columns t c = Some ci \<and> is_media_type ci \<and> \<not> is_stored ci \<Longrightarrow>
   \<exists>err. check_stored t cs = Inl err"
  by (induction cs) (auto split: option.splits)

lemma check_stored_bad_named:
  "\<exists>c\<in>set cs. \<exists>ci. columns t c = Some ci \<and> is_media_type ci \<and> \<not> is_stored ci \<Longrightarrow>
   \<forall>c\<in>set cs. columns t c \<noteq> None \<Longrightarrow>
   \<exists>c\<in>set cs. check_stored t cs = Inl (MediaNotStored c) \<and>
      (\<exists>ci. columns t c = Some ci \<and> is_media_type ci \<and> \<not> is_stored ci)"
  by (induction cs) (auto split: option.splits)

text \<open>
  C7. When a push column is a media column that is not stored, the push fails and the
  remote project receives no create or update call; when moreover the enumerated tasks
  carry rowids and every push column is a column of the table, the error is the
  validation error naming such a column.
\<close>

theorem unstored_media_rejected:
  assumes items: "push_items p cm = Inr items"
    and bad: "\<exists>c\<in>set (map fst items). \<exists>ci. columns t c = Some ci \<and> is_media_type ci \<and> \<not> is_stored ci"
  shows "snd (create_tasks_from_table p t cm E) = p \<and>
         (\<exists>err. fst (create_tasks_from_table p t cm E) = Inl err) \<and>
         ((\<exists>S. row_ids_of E = Inr S) \<and> (\<forall>c\<in>set (map fst items). columns t c \<noteq> None) \<longrightarrow>
            (\<exists>c\<in>set (map fst items).
                fst (create_tasks_from_table p t cm E) = Inl (MediaNotStored c) \<and>
                (\<exists>ci. columns t c = Some ci \<and> is_media_type ci \<and> \<not> is_stored ci)))"
proof -
  from check_stored_bad [OF bad] obtain err where
    err: "check_stored t (map fst items) = Inl err" by blast
  have run: "create_tasks_from_table p t cm E =
               (case row_ids_of E of Inl e \<Rightarrow> (Inl e, p) | Inr S \<Rightarrow> (Inl err, p))"
    by (simp add: create_tasks_from_table_def items err Let_def split: sum.splits)
  have 1: "snd (create_tasks_from_table p t cm E) = p"
    by (simp add: run split: sum.splits)
  have 2: "\<exists>e. fst (create_tasks_from_table p t cm E) = Inl e"
    by (simp add: run split: sum.splits)
  have 3: "\<exists>c\<in>set (map fst items).
                fst (create_tasks_from_table p t cm E) = Inl (MediaNotStored c) \<and>
                (\<exists>ci. columns t c = Some ci \<and> is_media_type ci \<and> \<not> is_stored ci)"
    if h: "(\<exists>S. row_ids_of E = Inr S) \<and> (\<forall>c\<in>set (map fst items). columns t c \<noteq> None)"
  proof -
    from h obtain S where S: "row_ids_of E = Inr S" by blast
    from h have all: "\<forall>c\<in>set (map fst items). columns t c \<noteq> None" by blast
    from check_stored_bad_named [OF bad all] obtain c where
      c: "c \<in> set (map fst items)" "check_stored t (map fst items) = Inl (MediaNotStored c)"
         "\<exists>ci. columns t c = Some ci \<and> is_media_type ci \<and> \<not> is_stored ci"
      by blast
    from c(2) err have "err = MediaNotStored c" by simp
    then have "fst (create_tasks_from_table p t cm E) = Inl (MediaNotStored c)"
      by (simp add: run S)
    with c show ?thesis by blast
  qed
  from 1 2 3 show ?thesis by blast
qed

theorem unstored_media_rejected_witness:
  "create_tasks_from_table ex_project (ex_table False ''http://host/4.png'') ex_push_mapping ex_remote
     = (Inl (MediaNotStored ''img''), ex_project)"
proof -
  let ?t = "ex_table False ''http://host/4.png''"
  let ?items = "[(''img'', ''image''), (''caption'', ''text'')]"
  have bad: "\<exists>c\<in>set (map fst ?items). \<exists>ci. columns ?t c = Some ci \<and> is_media_type ci \<and> \<not> is_stored ci"
    by (simp add: ex_table_def ex_columns_def)
  have pre: "(\<exists>S. row_ids_of ex_remote = Inr S) \<and> (\<forall>c\<in>set (map fst ?items). columns ?t c \<noteq> None)"
    by (simp add: ex_row_ids ex_table_def ex_columns_def)
  from unstored_media_rejected [OF ex_items bad, of ex_remote] pre obtain c where
    c: "snd (create_tasks_from_table ex_project ?t ex_push_mapping ex_remote) = ex_project"
       "c \<in> set (map fst ?items)"
       "fst (create_tasks_from_table ex_project ?t ex_push_mapping ex_remote) = Inl (MediaNotStored c)"
       "\<exists>ci. columns ?t c = Some ci \<and> is_media_type ci \<and> \<not> is_stored ci"
    by blast
  from c(2) c(4) have "c = ''img''"
    by (auto simp: ex_table_def ex_columns_def)
  with c(1) c(3) show ?thesis
    by (metis prod.collapse)
qed

end
